theory Spec2Isabelle
  imports Complex_Main
begin

section \<open>The gRPC runtime, as the interceptor sees it\<close>

text \<open>
  The members of \<open>grpc.StatusCode\<close> and their \<open>.name\<close>.
\<close>

datatype StatusCode =
    OK | CANCELLED | UNKNOWN | INVALID_ARGUMENT | DEADLINE_EXCEEDED | NOT_FOUND
  | ALREADY_EXISTS | PERMISSION_DENIED | RESOURCE_EXHAUSTED | FAILED_PRECONDITION
  | ABORTED | OUT_OF_RANGE | UNIMPLEMENTED | INTERNAL | UNAVAILABLE | DATA_LOSS
  | UNAUTHENTICATED

fun name :: "StatusCode \<Rightarrow> string" where
  "name OK = ''OK''"
| "name CANCELLED = ''CANCELLED''"
| "name UNKNOWN = ''UNKNOWN''"
| "name INVALID_ARGUMENT = ''INVALID_ARGUMENT''"
| "name DEADLINE_EXCEEDED = ''DEADLINE_EXCEEDED''"
| "name NOT_FOUND = ''NOT_FOUND''"
| "name ALREADY_EXISTS = ''ALREADY_EXISTS''"
| "name PERMISSION_DENIED = ''PERMISSION_DENIED''"
| "name RESOURCE_EXHAUSTED = ''RESOURCE_EXHAUSTED''"
| "name FAILED_PRECONDITION = ''FAILED_PRECONDITION''"
| "name ABORTED = ''ABORTED''"
| "name OUT_OF_RANGE = ''OUT_OF_RANGE''"
| "name UNIMPLEMENTED = ''UNIMPLEMENTED''"
| "name INTERNAL = ''INTERNAL''"
| "name UNAVAILABLE = ''UNAVAILABLE''"
| "name DATA_LOSS = ''DATA_LOSS''"
| "name UNAUTHENTICATED = ''UNAUTHENTICATED''"

text \<open>
  What a handler can raise. \<open>RpcError_Call c d\<close> is a \<open>grpc.RpcError\<close> that is also a
  \<open>grpc.Call\<close> (its \<open>code()\<close> is \<open>c\<close>), \<open>RpcError d\<close> is a \<open>grpc.RpcError\<close> that is
  not a \<open>grpc.Call\<close>, and \<open>Exception d\<close> is any exception that is not a
  \<open>grpc.RpcError\<close>. The string tells two exception objects of one class apart.
\<close>

datatype py_exception =
    RpcError_Call StatusCode string
  | RpcError string
  | Exception string

fun isinstance_RpcError :: "py_exception \<Rightarrow> bool" where
  "isinstance_RpcError (RpcError_Call c d) = True"
| "isinstance_RpcError (RpcError d) = True"
| "isinstance_RpcError (Exception d) = False"

text \<open>
  \<open>servicer_context._state\<close>: the two attributes the interceptor reads. \<open>code\<close> is
  \<open>None\<close> until a status is set.
\<close>

record servicer_state =
  client :: string
  code :: "StatusCode option"

section \<open>The metrics backend\<close>

text \<open>
  The ten metrics the interceptor imports from \<open>server_metrics\<close>. A label set is the
  keyword arguments of \<open>.labels(...)\<close>, in the order they are written. The backend is
  write-only for the interceptor, so a call's effect on it is the list of its writes
  in the order they happen. The list also records when the original behavior is called
  and when a request element is handed to it, so that a write can be placed before or
  after these points.
\<close>

datatype metric =
    GRPC_SERVER_HANDLED_COUNTER
  | GRPC_SERVER_HANDLED_HISTOGRAM
  | GRPC_SERVER_STARTED_COUNTER
  | GRPC_SERVER_STREAM_MSG_RECEIVED
  | GRPC_SERVER_STREAM_MSG_SENT
  | LEGACY_GRPC_SERVER_HANDLED_LATENCY_SECONDS
  | LEGACY_GRPC_SERVER_HANDLED_TOTAL_COUNTER
  | LEGACY_GRPC_SERVER_MSG_RECEIVED_TOTAL_COUNTER
  | LEGACY_GRPC_SERVER_MSG_SENT_TOTAL_COUNTER
  | LEGACY_GRPC_SERVER_STARTED_TOTAL_COUNTER

type_synonym labels = "(string \<times> string) list"

datatype event =
    Inc metric labels
  | Observe metric labels real
  | Behavior_called
  | Request_delivered

section \<open>Iterators\<close>

text \<open>
  A Python iterator, pulled once at a time: a pull performs some writes and then either
  returns an item, raises \<open>StopIteration\<close>, or raises an exception. A value handed over
  where the code says \<open>request_or_iterator\<close> or \<open>response_or_iterator\<close> is a single
  message or an iterator.
\<close>

datatype 'a iterator =
    Yields "event list" 'a "'a iterator"
  | Stops "event list"
  | Throws "event list" py_exception

datatype 'a value_or_iterator = Value 'a | Iterator "'a iterator"

text \<open>
  Modelled from the spec: \<open>grpc_utils.get_method_type\<close> is not among the sources. The
  mapping is the one of the spec's Call Classifier: (false, false) is UNARY, (true, false)
  is CLIENT_STREAM, (false, true) is SERVER_STREAM and (true, true) is BIDI_STREAM.
\<close>

definition get_method_type :: "bool \<Rightarrow> bool \<Rightarrow> string" where
  "get_method_type request_streaming response_streaming =
     (if \<not> request_streaming \<and> \<not> response_streaming then ''UNARY''
      else if request_streaming \<and> \<not> response_streaming then ''CLIENT_STREAM''
      else if \<not> request_streaming \<and> response_streaming then ''SERVER_STREAM''
      else ''BIDI_STREAM'')"

text \<open>
  Modelled from the spec: \<open>grpc_utils.wrap_iterator_inc_counter\<close> is not among the
  sources. It is the spec's Counting Stream Adapter: the same elements in the same order
  with the same end, and the counter incremented once, with the call's labels, for each
  element the source produced, right before the element is handed on; nothing is counted
  for a pull that ends or raises. The adapter is a generator: applied to a value that is
  not iterable it still returns one, whose first pull raises \<open>TypeError\<close>.
\<close>

fun count_elements :: "'a iterator \<Rightarrow> event \<Rightarrow> 'a iterator" where
  "count_elements (Yields evs x rest) inc = Yields (evs @ [inc]) x (count_elements rest inc)"
| "count_elements (Stops evs) inc = Stops evs"
| "count_elements (Throws evs e) inc = Throws evs e"

definition wrap_iterator_inc_counter ::
  "'a value_or_iterator \<Rightarrow> metric \<Rightarrow> string \<Rightarrow> string \<Rightarrow> string \<Rightarrow> 'a value_or_iterator" where
  "wrap_iterator_inc_counter iterator counter grpc_type grpc_service_name grpc_method_name =
     (case iterator of
        Iterator it \<Rightarrow>
          Iterator (count_elements it
            (Inc counter [(''grpc_type'', grpc_type), (''grpc_service'', grpc_service_name),
                          (''grpc_method'', grpc_method_name)]))
      | Value v \<Rightarrow> Iterator (Throws [] (Exception ''TypeError'')))"

section \<open>Handlers\<close>

text \<open>
  The original behavior is user code. What the interceptor can observe of one run of it:
  the pulls it makes on its request iterator, the changes of the context's state while it
  runs, and how the call \<open>behavior(request_or_iterator, servicer_context)\<close> ends: with a
  response, with an iterator of responses (whose pulls run more of the handler), or with
  an exception.
\<close>

datatype action = Next_request | Set_state servicer_state

datatype 'b generator =
    Yield "action list" 'b "'b generator"
  | Return_generator "action list"
  | Raise_generator "action list" py_exception

datatype 'b completion =
    Return 'b
  | Return_iterator "'b generator"
  | Raise py_exception

datatype 'b behavior = Behavior (body: "action list") (completion: "'b completion")

text \<open>
  \<open>next(request_iterator)\<close> inside the handler. A finished iterator stays finished. A
  handler that was given a single request has nothing to pull.
\<close>

fun next_request :: "'a value_or_iterator \<Rightarrow> event list \<times> 'a value_or_iterator" where
  "next_request (Value v) = ([], Value v)"
| "next_request (Iterator (Yields evs x rest)) = (evs @ [Request_delivered], Iterator rest)"
| "next_request (Iterator (Stops evs)) = (evs, Iterator (Stops []))"
| "next_request (Iterator (Throws evs e)) = (evs, Iterator (Stops []))"

fun run_actions ::
  "action list \<Rightarrow> 'a value_or_iterator \<Rightarrow> servicer_state
     \<Rightarrow> event list \<times> 'a value_or_iterator \<times> servicer_state" where
  "run_actions [] request st = ([], request, st)"
| "run_actions (Next_request # acts) request st =
     (let (evs, request') = next_request request;
          (evs', request'', st') = run_actions acts request' st
      in (evs @ evs', request'', st'))"
| "run_actions (Set_state s # acts) request st = run_actions acts request s"

fun run_generator ::
  "'b generator \<Rightarrow> 'a value_or_iterator \<Rightarrow> servicer_state \<Rightarrow> 'b iterator" where
  "run_generator (Yield acts y g) request st =
     (let (evs, request', st') = run_actions acts request st
      in Yields evs y (run_generator g request' st'))"
| "run_generator (Return_generator acts) request st = Stops (fst (run_actions acts request st))"
| "run_generator (Raise_generator acts e) request st =
     Throws (fst (run_actions acts request st)) e"

text \<open>
  The call \<open>behavior(request_or_iterator, servicer_context)\<close>: the writes it causes, the
  context's state when it ends, and the exception or the returned value. Calling
  \<open>None\<close> raises \<open>TypeError\<close>.
\<close>

definition call_behavior ::
  "'b behavior option \<Rightarrow> 'a value_or_iterator \<Rightarrow> servicer_state
     \<Rightarrow> event list \<times> servicer_state \<times> (py_exception + 'b value_or_iterator)" where
  "call_behavior behavior request_or_iterator servicer_context =
     (case behavior of
        None \<Rightarrow> ([Behavior_called], servicer_context, Inl (Exception ''TypeError''))
      | Some b \<Rightarrow>
          (let (evs, request', st') = run_actions (body b) request_or_iterator servicer_context
           in (Behavior_called # evs, st',
               case completion b of
                 Return v \<Rightarrow> Inr (Value v)
               | Return_iterator g \<Rightarrow> Inr (Iterator (run_generator g request' st'))
               | Raise e \<Rightarrow> Inl e)))"

section \<open>PromServerInterceptor\<close>

record PromServerInterceptor =
  enable_handling_time_histogram :: bool
  legacy :: bool

definition init :: "bool \<Rightarrow> bool \<Rightarrow> PromServerInterceptor" where
  "init enable_handling_time_histogram' legacy' =
     \<lparr>enable_handling_time_histogram = enable_handling_time_histogram', legacy = legacy'\<rparr>"

definition compute_status_code :: "servicer_state \<Rightarrow> StatusCode" where
  "compute_status_code servicer_context =
     (if client servicer_context = ''cancelled'' then CANCELLED
      else if code servicer_context = None then OK
      else the (code servicer_context))"

fun compute_error_code :: "py_exception \<Rightarrow> string" where
  "compute_error_code (RpcError_Call c d) = name c"
| "compute_error_code grpc_exception = name UNKNOWN"

text \<open>
  \<open>new_behavior\<close>, lines 47 to 77: what is done before the original behavior is called.
  The writes, and the request or iterator the behavior is called with.
\<close>

definition before_behavior ::
  "PromServerInterceptor \<Rightarrow> string \<Rightarrow> string \<Rightarrow> bool \<Rightarrow> string \<Rightarrow> 'a value_or_iterator
     \<Rightarrow> event list \<times> 'a value_or_iterator" where
  "before_behavior self grpc_service_name grpc_method_name request_streaming grpc_type
       request_or_iterator =
     (let received_metric =
            (if legacy self then LEGACY_GRPC_SERVER_MSG_RECEIVED_TOTAL_COUNTER
             else GRPC_SERVER_STREAM_MSG_RECEIVED)
      in if request_streaming then
           (let request_or_iterator1 =
                  wrap_iterator_inc_counter request_or_iterator GRPC_SERVER_STREAM_MSG_RECEIVED
                    grpc_type grpc_service_name grpc_method_name
            in if \<not> legacy self then
                 ([], wrap_iterator_inc_counter request_or_iterator1 GRPC_SERVER_STREAM_MSG_SENT
                        grpc_type grpc_service_name grpc_method_name)
               else ([], request_or_iterator1))
         else if legacy self then
           ([Inc LEGACY_GRPC_SERVER_STARTED_TOTAL_COUNTER
               [(''grpc_type'', grpc_type), (''grpc_service'', grpc_service_name),
                (''grpc_method'', grpc_method_name)]],
            request_or_iterator)
         else
           ([Inc GRPC_SERVER_STARTED_COUNTER
               [(''grpc_type'', grpc_type), (''grpc_service'', grpc_service_name),
                (''grpc_method'', grpc_method_name)]],
            request_or_iterator))"

text \<open>
  \<open>new_behavior\<close>, lines 82 to 116: what is done once the original behavior has returned.
\<close>

definition after_behavior ::
  "PromServerInterceptor \<Rightarrow> string \<Rightarrow> string \<Rightarrow> bool \<Rightarrow> string \<Rightarrow> 'b value_or_iterator
     \<Rightarrow> servicer_state \<Rightarrow> event list \<times> 'b value_or_iterator" where
  "after_behavior self grpc_service_name grpc_method_name response_streaming grpc_type
       response_or_iterator servicer_context =
     (if response_streaming then
        (let sent_metric =
               (if legacy self then LEGACY_GRPC_SERVER_MSG_SENT_TOTAL_COUNTER
                else GRPC_SERVER_STREAM_MSG_SENT);
             response_or_iterator1 =
               (if \<not> legacy self then
                  wrap_iterator_inc_counter response_or_iterator GRPC_SERVER_STREAM_MSG_RECEIVED
                    grpc_type grpc_service_name grpc_method_name
                else response_or_iterator)
         in ([], wrap_iterator_inc_counter response_or_iterator1 sent_metric
                   grpc_type grpc_service_name grpc_method_name))
      else if legacy self then
        ([Inc LEGACY_GRPC_SERVER_HANDLED_TOTAL_COUNTER
            [(''grpc_type'', grpc_type), (''grpc_service'', grpc_service_name),
             (''grpc_method'', grpc_method_name),
             (''code'', name (compute_status_code servicer_context))]],
         response_or_iterator)
      else
        ([Inc GRPC_SERVER_HANDLED_COUNTER
            [(''grpc_type'', grpc_type), (''grpc_service'', grpc_service_name),
             (''grpc_method'', grpc_method_name),
             (''code'', name (compute_status_code servicer_context))]],
         response_or_iterator))"

text \<open>
  The \<open>try\<close> block, lines 45 to 118: an exception of the behavior skips what follows the
  call.
\<close>

definition try_block ::
  "PromServerInterceptor \<Rightarrow> string \<Rightarrow> string \<Rightarrow> 'b behavior option \<Rightarrow> bool \<Rightarrow> bool \<Rightarrow> string
     \<Rightarrow> 'a value_or_iterator \<Rightarrow> servicer_state
     \<Rightarrow> event list \<times> servicer_state \<times> (py_exception + 'b value_or_iterator)" where
  "try_block self grpc_service_name grpc_method_name behavior request_streaming
       response_streaming grpc_type request_or_iterator servicer_context =
     (let (started, request_or_iterator1) =
            before_behavior self grpc_service_name grpc_method_name request_streaming grpc_type
              request_or_iterator;
          (called, servicer_context1, returned) =
            call_behavior behavior request_or_iterator1 servicer_context
      in case returned of
           Inl e \<Rightarrow> (started @ called, servicer_context1, Inl e)
         | Inr response_or_iterator \<Rightarrow>
             (let (handled, response_or_iterator1) =
                    after_behavior self grpc_service_name grpc_method_name response_streaming
                      grpc_type response_or_iterator servicer_context1
              in (started @ called @ handled, servicer_context1, Inr response_or_iterator1)))"

text \<open>
  The \<open>except grpc.RpcError as e\<close> clause, lines 119 to 134: the writes made before
  \<open>raise e\<close>. An exception that is not a \<open>grpc.RpcError\<close> does not enter the clause.
\<close>

definition except_RpcError ::
  "PromServerInterceptor \<Rightarrow> string \<Rightarrow> string \<Rightarrow> string \<Rightarrow> py_exception \<Rightarrow> event list" where
  "except_RpcError self grpc_service_name grpc_method_name grpc_type e =
     (if isinstance_RpcError e then
        (if legacy self then
           [Inc LEGACY_GRPC_SERVER_HANDLED_TOTAL_COUNTER
              [(''grpc_type'', grpc_type), (''grpc_service'', grpc_service_name),
               (''grpc_method'', grpc_method_name), (''code'', compute_error_code e)]]
         else
           [Inc GRPC_SERVER_HANDLED_COUNTER
              [(''grpc_type'', grpc_type), (''grpc_service'', grpc_service_name),
               (''grpc_method'', grpc_method_name), (''code'', compute_error_code e)]])
      else [])"

text \<open>
  The \<open>finally\<close> clause, lines 136 to 150. \<open>start\<close> is what \<open>default_timer()\<close> returned
  at line 43 and \<open>now\<close> what it returns in this clause; the readings are taken as real
  numbers.
\<close>

definition finally_clause ::
  "PromServerInterceptor \<Rightarrow> string \<Rightarrow> string \<Rightarrow> bool \<Rightarrow> string \<Rightarrow> real \<Rightarrow> real \<Rightarrow> event list" where
  "finally_clause self grpc_service_name grpc_method_name response_streaming grpc_type
       start now =
     (if \<not> response_streaming then
        (if legacy self then
           [Observe LEGACY_GRPC_SERVER_HANDLED_LATENCY_SECONDS
              [(''grpc_type'', grpc_type), (''grpc_service'', grpc_service_name),
               (''grpc_method'', grpc_method_name)]
              (max (now - start) 0)]
         else if enable_handling_time_histogram self then
           [Observe GRPC_SERVER_HANDLED_HISTOGRAM
              [(''grpc_type'', grpc_type), (''grpc_service'', grpc_service_name),
               (''grpc_method'', grpc_method_name)]
              (max (now - start) 0)]
         else [])
      else [])"

text \<open>
  One call of \<open>new_behavior\<close>: everything written during the call in order, the value
  returned or the exception raised, and the state of the context at the end.
\<close>

record 'b invocation =
  recorded :: "event list"
  result :: "py_exception + 'b value_or_iterator"
  state_after :: servicer_state

definition new_behavior ::
  "PromServerInterceptor \<Rightarrow> string \<Rightarrow> string \<Rightarrow> 'b behavior option \<Rightarrow> bool \<Rightarrow> bool
     \<Rightarrow> 'a value_or_iterator \<Rightarrow> servicer_state \<Rightarrow> real \<Rightarrow> real \<Rightarrow> 'b invocation" where
  "new_behavior self grpc_service_name grpc_method_name behavior request_streaming
       response_streaming request_or_iterator servicer_context start now =
     (let grpc_type = get_method_type request_streaming response_streaming;
          (tried, servicer_context1, returned) =
            try_block self grpc_service_name grpc_method_name behavior request_streaming
              response_streaming grpc_type request_or_iterator servicer_context;
          caught =
            (case returned of
               Inl e \<Rightarrow> except_RpcError self grpc_service_name grpc_method_name grpc_type e
             | Inr response_or_iterator \<Rightarrow> []);
          observed =
            finally_clause self grpc_service_name grpc_method_name response_streaming grpc_type
              start now
      in \<lparr>recorded = tried @ caught @ observed, result = returned,
          state_after = servicer_context1\<rparr>)"

definition metrics_wrapper ::
  "PromServerInterceptor \<Rightarrow> string \<Rightarrow> string \<Rightarrow> 'b behavior option \<Rightarrow> bool \<Rightarrow> bool
     \<Rightarrow> 'a value_or_iterator \<Rightarrow> servicer_state \<Rightarrow> real \<Rightarrow> real \<Rightarrow> 'b invocation" where
  "metrics_wrapper self grpc_service_name grpc_method_name behavior request_streaming
       response_streaming =
     new_behavior self grpc_service_name grpc_method_name behavior request_streaming
       response_streaming"

section \<open>The runtime around a call\<close>

text \<open>
  The request the transport hands over: a single message, or an iterator over the
  messages \<open>xs\<close> that then ends (\<open>None\<close>) or raises. The transport's iterator writes no
  metric.
\<close>

datatype 'a request = Request 'a | Request_iterator "'a list" "py_exception option"

fun transport_iterator :: "'a list \<Rightarrow> py_exception option \<Rightarrow> 'a iterator" where
  "transport_iterator [] None = Stops []"
| "transport_iterator [] (Some e) = Throws [] e"
| "transport_iterator (x # xs) ending = Yields [] x (transport_iterator xs ending)"

fun handed_over :: "'a request \<Rightarrow> 'a value_or_iterator" where
  "handed_over (Request x) = Value x"
| "handed_over (Request_iterator xs ending) = Iterator (transport_iterator xs ending)"

text \<open>
  The runtime pulling a response iterator at most \<open>n\<close> times: the writes the pulls cause,
  the responses that reach the caller, and the exception that ended the stream, if one
  did.
\<close>

fun consume :: "nat \<Rightarrow> 'b iterator \<Rightarrow> event list \<times> 'b list \<times> py_exception option" where
  "consume 0 it = ([], [], None)"
| "consume (Suc n) (Yields evs y rest) =
     (let (evs', ys, ending) = consume n rest in (evs @ evs', y # ys, ending))"
| "consume (Suc n) (Stops evs) = (evs, [], None)"
| "consume (Suc n) (Throws evs e) = (evs, [], Some e)"

definition streamed ::
  "bool \<Rightarrow> 'b invocation \<Rightarrow> nat \<Rightarrow> event list \<times> 'b list \<times> py_exception option" where
  "streamed response_streaming r n =
     (if response_streaming then
        (case result r of
           Inr (Iterator it) \<Rightarrow> consume n it
         | Inr (Value v) \<Rightarrow> ([], [], None)
         | Inl e \<Rightarrow> ([], [], None))
      else ([], [], None))"

text \<open>
  A whole call: \<open>new_behavior\<close> is called with the transport's request, and when the call
  is response-streaming the runtime then pulls the returned iterator at most \<open>n\<close> times.
  \<open>call_events\<close> is everything written from the first to the last of these steps,
  \<open>call_responses\<close> the responses that reached the caller.
\<close>

definition call_events ::
  "PromServerInterceptor \<Rightarrow> string \<Rightarrow> string \<Rightarrow> 'b behavior option \<Rightarrow> bool \<Rightarrow> bool
     \<Rightarrow> 'a request \<Rightarrow> servicer_state \<Rightarrow> real \<Rightarrow> real \<Rightarrow> nat \<Rightarrow> event list" where
  "call_events self grpc_service_name grpc_method_name behavior request_streaming
       response_streaming request servicer_context start now n =
     (let r = new_behavior self grpc_service_name grpc_method_name behavior request_streaming
                response_streaming (handed_over request) servicer_context start now
      in recorded r @ fst (streamed response_streaming r n))"

definition call_responses ::
  "PromServerInterceptor \<Rightarrow> string \<Rightarrow> string \<Rightarrow> 'b behavior option \<Rightarrow> bool \<Rightarrow> bool
     \<Rightarrow> 'a request \<Rightarrow> servicer_state \<Rightarrow> real \<Rightarrow> real \<Rightarrow> nat \<Rightarrow> 'b list" where
  "call_responses self grpc_service_name grpc_method_name behavior request_streaming
       response_streaming request servicer_context start now n =
     (let r = new_behavior self grpc_service_name grpc_method_name behavior request_streaming
                response_streaming (handed_over request) servicer_context start now
      in fst (snd (streamed response_streaming r n)))"

section \<open>Reading a list of writes\<close>

text \<open>
  The two metric families and the five kinds of metric, by the names the interceptor
  imports them under.
\<close>

fun legacy_family :: "metric \<Rightarrow> bool" where
  "legacy_family LEGACY_GRPC_SERVER_HANDLED_LATENCY_SECONDS = True"
| "legacy_family LEGACY_GRPC_SERVER_HANDLED_TOTAL_COUNTER = True"
| "legacy_family LEGACY_GRPC_SERVER_MSG_RECEIVED_TOTAL_COUNTER = True"
| "legacy_family LEGACY_GRPC_SERVER_MSG_SENT_TOTAL_COUNTER = True"
| "legacy_family LEGACY_GRPC_SERVER_STARTED_TOTAL_COUNTER = True"
| "legacy_family m = False"

fun started_metric :: "metric \<Rightarrow> bool" where
  "started_metric GRPC_SERVER_STARTED_COUNTER = True"
| "started_metric LEGACY_GRPC_SERVER_STARTED_TOTAL_COUNTER = True"
| "started_metric m = False"

fun handled_metric :: "metric \<Rightarrow> bool" where
  "handled_metric GRPC_SERVER_HANDLED_COUNTER = True"
| "handled_metric LEGACY_GRPC_SERVER_HANDLED_TOTAL_COUNTER = True"
| "handled_metric m = False"

fun latency_metric :: "metric \<Rightarrow> bool" where
  "latency_metric GRPC_SERVER_HANDLED_HISTOGRAM = True"
| "latency_metric LEGACY_GRPC_SERVER_HANDLED_LATENCY_SECONDS = True"
| "latency_metric m = False"

fun written :: "(metric \<Rightarrow> bool) \<Rightarrow> event \<Rightarrow> bool" where
  "written P (Inc m l) = P m"
| "written P (Observe m l v) = P m"
| "written P Behavior_called = False"
| "written P Request_delivered = False"

section \<open>Wrapping the handler\<close>

text \<open>
  \<open>grpc.RpcMethodHandler\<close> and the four factories of the \<open>grpc\<close> package: each builds
  a handler of its shape with the behavior at the entry point of that shape and
  \<open>None\<close> at the other three.
\<close>

record ('h, 'd, 's) RpcMethodHandler =
  request_streaming :: bool
  response_streaming :: bool
  request_deserializer :: 'd
  response_serializer :: 's
  unary_unary :: "'h option"
  unary_stream :: "'h option"
  stream_unary :: "'h option"
  stream_stream :: "'h option"

definition unary_unary_rpc_method_handler ::
  "'h \<Rightarrow> 'd \<Rightarrow> 's \<Rightarrow> ('h, 'd, 's) RpcMethodHandler" where
  "unary_unary_rpc_method_handler behavior deserializer serializer =
     \<lparr>request_streaming = False, response_streaming = False,
      request_deserializer = deserializer, response_serializer = serializer,
      unary_unary = Some behavior, unary_stream = None, stream_unary = None,
      stream_stream = None\<rparr>"

definition unary_stream_rpc_method_handler ::
  "'h \<Rightarrow> 'd \<Rightarrow> 's \<Rightarrow> ('h, 'd, 's) RpcMethodHandler" where
  "unary_stream_rpc_method_handler behavior deserializer serializer =
     \<lparr>request_streaming = False, response_streaming = True,
      request_deserializer = deserializer, response_serializer = serializer,
      unary_unary = None, unary_stream = Some behavior, stream_unary = None,
      stream_stream = None\<rparr>"

definition stream_unary_rpc_method_handler ::
  "'h \<Rightarrow> 'd \<Rightarrow> 's \<Rightarrow> ('h, 'd, 's) RpcMethodHandler" where
  "stream_unary_rpc_method_handler behavior deserializer serializer =
     \<lparr>request_streaming = True, response_streaming = False,
      request_deserializer = deserializer, response_serializer = serializer,
      unary_unary = None, unary_stream = None, stream_unary = Some behavior,
      stream_stream = None\<rparr>"

definition stream_stream_rpc_method_handler ::
  "'h \<Rightarrow> 'd \<Rightarrow> 's \<Rightarrow> ('h, 'd, 's) RpcMethodHandler" where
  "stream_stream_rpc_method_handler behavior deserializer serializer =
     \<lparr>request_streaming = True, response_streaming = True,
      request_deserializer = deserializer, response_serializer = serializer,
      unary_unary = None, unary_stream = None, stream_unary = None,
      stream_stream = Some behavior\<rparr>"

definition wrap_rpc_behavior ::
  "('h, 'd, 's) RpcMethodHandler option \<Rightarrow> ('h option \<Rightarrow> bool \<Rightarrow> bool \<Rightarrow> 'w)
     \<Rightarrow> ('w, 'd, 's) RpcMethodHandler option" where
  "wrap_rpc_behavior handler fn =
     (case handler of
        None \<Rightarrow> None
      | Some handler \<Rightarrow>
          (let (behavior_fn, handler_factory) =
                 (if request_streaming handler \<and> response_streaming handler then
                    (stream_stream handler, stream_stream_rpc_method_handler)
                  else if request_streaming handler \<and> \<not> response_streaming handler then
                    (stream_unary handler, stream_unary_rpc_method_handler)
                  else if \<not> request_streaming handler \<and> response_streaming handler then
                    (unary_stream handler, unary_stream_rpc_method_handler)
                  else (unary_unary handler, unary_unary_rpc_method_handler))
           in Some (handler_factory
                      (fn behavior_fn (request_streaming handler) (response_streaming handler))
                      (request_deserializer handler) (response_serializer handler))))"

text \<open>
  \<open>intercept_service\<close>. \<open>grpc_utils.split_method_call\<close> is not among the sources and is
  a parameter here: it returns the service name, the method name and a third value the
  interceptor drops, or raises. The writes made during the interception itself come
  first in the result; the interceptor makes none outside \<open>new_behavior\<close>.
\<close>

definition intercept_service ::
  "PromServerInterceptor \<Rightarrow> ('c \<Rightarrow> py_exception + string \<times> string \<times> bool)
     \<Rightarrow> ('c \<Rightarrow> ('b behavior, 'd, 's) RpcMethodHandler option) \<Rightarrow> 'c
     \<Rightarrow> event list \<times>
        (py_exception +
         ('a value_or_iterator \<Rightarrow> servicer_state \<Rightarrow> real \<Rightarrow> real \<Rightarrow> 'b invocation, 'd, 's)
           RpcMethodHandler option)" where
  "intercept_service self split_method_call continuation handler_call_details =
     (case split_method_call handler_call_details of
        Inl e \<Rightarrow> ([], Inl e)
      | Inr (grpc_service_name, grpc_method_name, ok) \<Rightarrow>
          (let optional_any =
                 wrap_rpc_behavior (continuation handler_call_details)
                   (metrics_wrapper self grpc_service_name grpc_method_name)
           in ([], Inr optional_any)))"

section \<open>Notions used in the statements and proofs\<close>

text \<open>
  \<open>iterator_all Q it\<close>: every write of every pull of \<open>it\<close> satisfies \<open>Q\<close>.
  \<open>last_state acts st\<close>: the state of the context after the handler's actions \<open>acts\<close>,
  started in \<open>st\<close>.
\<close>

fun iterator_all :: "(event \<Rightarrow> bool) \<Rightarrow> 'a iterator \<Rightarrow> bool" where
  "iterator_all Q (Yields evs x rest) = (list_all Q evs \<and> iterator_all Q rest)"
| "iterator_all Q (Stops evs) = list_all Q evs"
| "iterator_all Q (Throws evs e) = list_all Q evs"

fun handed_all :: "(event \<Rightarrow> bool) \<Rightarrow> 'a value_or_iterator \<Rightarrow> bool" where
  "handed_all Q (Value v) = True"
| "handed_all Q (Iterator it) = iterator_all Q it"

fun last_state :: "action list \<Rightarrow> servicer_state \<Rightarrow> servicer_state" where
  "last_state [] st = st"
| "last_state (Next_request # acts) st = last_state acts st"
| "last_state (Set_state s # acts) st = last_state acts s"

text \<open>
  \<open>counts_per_element e k it\<close>: every pull of \<open>it\<close> that hands on an element performs the
  write \<open>e\<close> exactly \<open>k\<close> times, and a pull that ends or raises performs it never.
  \<open>counted_after incs inner outer\<close>: \<open>outer\<close> hands on the elements of \<open>inner\<close> in the
  same order and ends as \<open>inner\<close> ends; a pull that hands on an element performs the
  writes of \<open>inner\<close>'s pull, then the writes \<open>incs\<close>, and nothing else; a pull that ends
  or raises performs the writes of \<open>inner\<close>'s pull only.
\<close>

fun counts_per_element :: "event \<Rightarrow> nat \<Rightarrow> 'a iterator \<Rightarrow> bool" where
  "counts_per_element e k (Yields evs x rest) =
     (count_list evs e = k \<and> counts_per_element e k rest)"
| "counts_per_element e k (Stops evs) = (count_list evs e = 0)"
| "counts_per_element e k (Throws evs ex) = (count_list evs e = 0)"

fun handed_counts :: "event \<Rightarrow> nat \<Rightarrow> 'a value_or_iterator \<Rightarrow> bool" where
  "handed_counts e k (Value v) = True"
| "handed_counts e k (Iterator it) = counts_per_element e k it"

fun counted_after :: "event list \<Rightarrow> 'a iterator \<Rightarrow> 'a iterator \<Rightarrow> bool" where
  "counted_after incs (Yields evs x rest) (Yields evs' x' rest') =
     (evs' = evs @ incs \<and> x' = x \<and> counted_after incs rest rest')"
| "counted_after incs (Stops evs) (Stops evs') = (evs' = evs)"
| "counted_after incs (Throws evs e) (Throws evs' e') = (evs' = evs \<and> e' = e)"
| "counted_after incs it it' = False"

section \<open>What a call writes\<close>

lemma iterator_all_count_elements:
  "iterator_all Q it \<Longrightarrow> Q inc \<Longrightarrow> iterator_all Q (count_elements it inc)"
  by (induction it) auto

lemma iterator_all_transport: "iterator_all Q (transport_iterator xs ending)"
  by (induction xs ending rule: transport_iterator.induct) auto

lemma handed_all_wrap:
  "handed_all Q v \<Longrightarrow> Q (Inc c [(''grpc_type'', ty), (''grpc_service'', svc), (''grpc_method'', m)])
     \<Longrightarrow> handed_all Q (wrap_iterator_inc_counter v c ty svc m)"
  by (cases v) (auto simp: wrap_iterator_inc_counter_def iterator_all_count_elements)

lemma handed_all_handed_over: "handed_all Q (handed_over req)"
  by (cases req) (auto simp: iterator_all_transport)

lemma next_request_all:
  "handed_all Q v \<Longrightarrow> Q Request_delivered
     \<Longrightarrow> list_all Q (fst (next_request v)) \<and> handed_all Q (snd (next_request v))"
  by (induction v rule: next_request.induct) auto

lemma run_actions_all:
  "handed_all Q v \<Longrightarrow> Q Request_delivered
     \<Longrightarrow> list_all Q (fst (run_actions acts v st)) \<and> handed_all Q (fst (snd (run_actions acts v st)))"
proof (induction acts v st rule: run_actions.induct)
  case (1 request st)
  then show ?case by simp
next
  case (2 acts request st)
  obtain evs request' where n: "next_request request = (evs, request')"
    by (cases "next_request request")
  with next_request_all [OF "2.prems"] have a: "list_all Q evs" "handed_all Q request'"
    by auto
  from "2.IH" [OF n [symmetric] refl a(2) "2.prems"(2)] a(1) n show ?case
    by (auto split: prod.splits)
next
  case (3 s acts request st)
  then show ?case by simp
qed

lemma run_actions_state: "snd (snd (run_actions acts v st)) = last_state acts st"
  by (induction acts v st rule: run_actions.induct) (auto split: prod.splits)

lemma run_generator_all:
  "handed_all Q v \<Longrightarrow> Q Request_delivered \<Longrightarrow> iterator_all Q (run_generator g v st)"
proof (induction g arbitrary: v st)
  case (Yield acts y g)
  obtain evs v' st' where r: "run_actions acts v st = (evs, v', st')"
    by (cases "run_actions acts v st")
  with run_actions_all [OF Yield.prems, of acts st] have "list_all Q evs" "handed_all Q v'"
    by auto
  with Yield.IH [of v' st'] Yield.prems(2) r show ?case by simp
next
  case (Return_generator acts)
  with run_actions_all [of Q v acts st] show ?case by simp
next
  case (Raise_generator acts e)
  with run_actions_all [of Q v acts st] show ?case by simp
qed

lemma consume_all: "iterator_all Q it \<Longrightarrow> list_all Q (fst (consume n it))"
  by (induction n it rule: consume.induct) (auto split: prod.splits)

lemma filter_none: "list_all (\<lambda>e. \<not> P e) evs \<Longrightarrow> filter P evs = []"
  by (induction evs) auto

lemma new_behavior_anatomy:
  assumes "call_behavior beh (snd (before_behavior self svc m rs (get_method_type rs ps) v)) st
             = (called, st', returned)"
  shows "recorded (new_behavior self svc m beh rs ps v st start now) =
           fst (before_behavior self svc m rs (get_method_type rs ps) v) @ called @
           (case returned of
              Inl e \<Rightarrow> except_RpcError self svc m (get_method_type rs ps) e
            | Inr w \<Rightarrow> fst (after_behavior self svc m ps (get_method_type rs ps) w st')) @
           finally_clause self svc m ps (get_method_type rs ps) start now"
    and "result (new_behavior self svc m beh rs ps v st start now) =
           (case returned of
              Inl e \<Rightarrow> Inl e
            | Inr w \<Rightarrow> Inr (snd (after_behavior self svc m ps (get_method_type rs ps) w st')))"
    and "state_after (new_behavior self svc m beh rs ps v st start now) = st'"
  using assms
  by (auto simp: new_behavior_def try_block_def Let_def split: prod.splits sum.splits)

lemma before_behavior_all:
  assumes "\<And>l. Q (Inc GRPC_SERVER_STREAM_MSG_RECEIVED l)"
    and "\<And>l. Q (Inc GRPC_SERVER_STREAM_MSG_SENT l)"
  shows "handed_all Q (snd (before_behavior self svc m rs ty (handed_over req)))"
  using assms
  by (auto simp: before_behavior_def Let_def handed_all_handed_over intro!: handed_all_wrap)

lemma call_behavior_all:
  assumes "handed_all Q v" "Q Request_delivered"
    and "call_behavior beh v st = (called, st', returned)"
  shows "filter (\<lambda>e. \<not> Q e) called = filter (\<lambda>e. \<not> Q e) [Behavior_called]"
    and "\<And>w. returned = Inr w \<Longrightarrow> handed_all Q w"
proof -
  have "filter (\<lambda>e. \<not> Q e) called = filter (\<lambda>e. \<not> Q e) [Behavior_called]
          \<and> (\<forall>w. returned = Inr w \<longrightarrow> handed_all Q w)"
  proof (cases beh)
    case None
    with assms show ?thesis by (auto simp: call_behavior_def)
  next
    case (Some b)
    obtain evs v' st1 where r: "run_actions (body b) v st = (evs, v', st1)"
      by (cases "run_actions (body b) v st")
    with run_actions_all [OF assms(1,2), of "body b" st]
    have a: "list_all Q evs" "handed_all Q v'" by simp_all
    from a(1) have "filter (\<lambda>e. \<not> Q e) evs = []" by (simp add: filter_none)
    with run_generator_all [OF a(2) assms(2)] assms(3) Some r show ?thesis
      by (auto simp: call_behavior_def split: completion.splits)
  qed
  then show "filter (\<lambda>e. \<not> Q e) called = filter (\<lambda>e. \<not> Q e) [Behavior_called]"
    and "\<And>w. returned = Inr w \<Longrightarrow> handed_all Q w" by auto
qed

lemma streamed_all:
  assumes "handed_all Q w"
    and "\<And>l. Q (Inc GRPC_SERVER_STREAM_MSG_RECEIVED l)"
    and "\<And>l. Q (Inc GRPC_SERVER_STREAM_MSG_SENT l)"
    and "\<And>l. Q (Inc LEGACY_GRPC_SERVER_MSG_SENT_TOTAL_COUNTER l)"
    and "result r = Inr (snd (after_behavior self svc m ps ty w st'))"
  shows "list_all Q (fst (streamed ps r n))"
proof (cases ps)
  case False
  then show ?thesis by (simp add: streamed_def)
next
  case True
  have "handed_all Q (snd (after_behavior self svc m True ty w st'))"
    using assms(1-4) by (auto simp: after_behavior_def Let_def intro!: handed_all_wrap)
  with True assms(5) show ?thesis
    by (auto simp: streamed_def consume_all split: value_or_iterator.splits)
qed

lemma call_events_writes:
  assumes "\<not> P GRPC_SERVER_STREAM_MSG_RECEIVED" "\<not> P GRPC_SERVER_STREAM_MSG_SENT"
    and "\<not> P LEGACY_GRPC_SERVER_MSG_SENT_TOTAL_COUNTER"
    and "call_behavior beh
           (snd (before_behavior self svc m rs (get_method_type rs ps) (handed_over req))) st
         = (called, st', returned)"
  shows "filter (written P) (call_events self svc m beh rs ps req st start now n) =
           filter (written P)
             (fst (before_behavior self svc m rs (get_method_type rs ps) (handed_over req))) @
           filter (written P)
             (case returned of
                Inl e \<Rightarrow> except_RpcError self svc m (get_method_type rs ps) e
              | Inr w \<Rightarrow> fst (after_behavior self svc m ps (get_method_type rs ps) w st')) @
           filter (written P) (finally_clause self svc m ps (get_method_type rs ps) start now)"
proof -
  let ?Q = "\<lambda>e. \<not> written P e"
  let ?r = "new_behavior self svc m beh rs ps (handed_over req) st start now"
  have q: "\<And>l. ?Q (Inc GRPC_SERVER_STREAM_MSG_RECEIVED l)"
    "\<And>l. ?Q (Inc GRPC_SERVER_STREAM_MSG_SENT l)"
    "\<And>l. ?Q (Inc LEGACY_GRPC_SERVER_MSG_SENT_TOTAL_COUNTER l)"
    "?Q Request_delivered"
    using assms(1-3) by simp_all
  have h: "handed_all ?Q
             (snd (before_behavior self svc m rs (get_method_type rs ps) (handed_over req)))"
    by (rule before_behavior_all) (simp_all add: assms)
  from call_behavior_all(1) [OF h q(4) assms(4)]
  have c: "filter (written P) called = []" by simp
  have s: "filter (written P) (fst (streamed ps ?r n)) = []"
  proof (cases returned)
    case (Inl e)
    with new_behavior_anatomy(2) [OF assms(4), of start now] show ?thesis
      by (cases ps) (simp_all add: streamed_def)
  next
    case (Inr w)
    from call_behavior_all(2) [OF h q(4) assms(4) Inr] have "handed_all ?Q w" .
    from streamed_all [OF this q(1,2,3), of ?r self svc m ps "get_method_type rs ps" st' n]
      new_behavior_anatomy(2) [OF assms(4), of start now] Inr
    show ?thesis by (simp add: filter_none)
  qed
  show ?thesis
    unfolding call_events_def Let_def
    using new_behavior_anatomy(1) [OF assms(4), of start now] c s by simp
qed

section \<open>Counting the writes of a call\<close>

lemma counts_count_elements:
  "counts_per_element e k it
     \<Longrightarrow> counts_per_element e (k + (if e = inc then 1 else 0)) (count_elements it inc)"
  by (induction it) auto

lemma counts_transport: "counts_per_element e 0 (transport_iterator xs ending)"
  by (induction xs ending rule: transport_iterator.induct) auto

lemma next_request_count:
  assumes "handed_counts e k v" "handed_counts Request_delivered 0 v" "e \<noteq> Request_delivered"
  shows "count_list (fst (next_request v)) e = k * count_list (fst (next_request v)) Request_delivered
         \<and> handed_counts e k (snd (next_request v))
         \<and> handed_counts Request_delivered 0 (snd (next_request v))"
  using assms by (induction v rule: next_request.induct) auto

lemma run_actions_count:
  assumes "handed_counts e k v" "handed_counts Request_delivered 0 v" "e \<noteq> Request_delivered"
  shows "count_list (fst (run_actions acts v st)) e
           = k * count_list (fst (run_actions acts v st)) Request_delivered
         \<and> handed_counts e k (fst (snd (run_actions acts v st)))
         \<and> handed_counts Request_delivered 0 (fst (snd (run_actions acts v st)))"
  using assms
proof (induction acts v st rule: run_actions.induct)
  case (1 request st)
  then show ?case by simp
next
  case (2 acts request st)
  obtain evs request' where n: "next_request request = (evs, request')"
    by (cases "next_request request")
  from next_request_count [OF "2.prems"] n
  have a: "count_list evs e = k * count_list evs Request_delivered"
    "handed_counts e k request'" "handed_counts Request_delivered 0 request'"
    by simp_all
  from "2.IH" [OF n [symmetric] refl a(2,3) "2.prems"(3)] a(1) n show ?case
    by (auto simp: algebra_simps split: prod.splits)
next
  case (3 s acts request st)
  then show ?case by simp
qed

lemma consume_run_generator_count:
  assumes "handed_counts e k v" "handed_counts Request_delivered 0 v" "e \<noteq> Request_delivered"
  shows "count_list (fst (consume n (run_generator g v st))) e
           = k * count_list (fst (consume n (run_generator g v st))) Request_delivered"
  using assms
proof (induction g arbitrary: n v st)
  case (Yield acts y g)
  obtain evs v' st' where r: "run_actions acts v st = (evs, v', st')"
    by (cases "run_actions acts v st")
  from run_actions_count [OF Yield.prems, of acts st] r
  have a: "count_list evs e = k * count_list evs Request_delivered"
    "handed_counts e k v'" "handed_counts Request_delivered 0 v'"
    by simp_all
  show ?case
  proof (cases n)
    case 0
    then show ?thesis by simp
  next
    case (Suc n')
    with Yield.IH [OF a(2,3) Yield.prems(3), of n' st'] a(1) r show ?thesis
      by (auto simp: algebra_simps split: prod.splits)
  qed
next
  case (Return_generator acts)
  with run_actions_count [of e k v acts st] show ?case by (cases n) auto
next
  case (Raise_generator acts ex)
  with run_actions_count [of e k v acts st] show ?case by (cases n) auto
qed

lemma consume_count_elements:
  "fst (snd (consume n (count_elements it inc))) = fst (snd (consume n it))
   \<and> snd (snd (consume n (count_elements it inc))) = snd (snd (consume n it))
   \<and> count_list (fst (consume n (count_elements it inc))) e =
       count_list (fst (consume n it)) e
       + (if e = inc then length (fst (snd (consume n it))) else 0)"
  by (induction n it rule: consume.induct) (auto split: prod.splits)

lemma counted_after_refl: "counted_after [] it it"
  by (induction it) auto

lemma counted_after_count_elements:
  "counted_after incs it it' \<Longrightarrow> counted_after (incs @ [inc]) it (count_elements it' inc)"
  by (induction incs it it' rule: counted_after.induct) auto

lemma counts_wrapped_once:
  "counts_per_element e (if e = inc then 1 else 0)
     (count_elements (transport_iterator xs ending) inc)"
proof -
  have "counts_per_element e (0 + (if e = inc then 1 else 0))
     (count_elements (transport_iterator xs ending) inc)"
    by (rule counts_count_elements [OF counts_transport])
  then show ?thesis by (simp only: add_0)
qed

lemma counts_wrapped_twice:
  "counts_per_element e ((if e = inc then 1 else 0) + (if e = inc' then 1 else 0))
     (count_elements (count_elements (transport_iterator xs ending) inc) inc')"
  by (rule counts_count_elements [OF counts_wrapped_once])

lemma before_behavior_counts:
  assumes "c = GRPC_SERVER_STREAM_MSG_RECEIVED \<or> c = GRPC_SERVER_STREAM_MSG_SENT
           \<or> c = LEGACY_GRPC_SERVER_MSG_RECEIVED_TOTAL_COUNTER
           \<or> c = LEGACY_GRPC_SERVER_MSG_SENT_TOTAL_COUNTER"
  shows "handed_counts
           (Inc c [(''grpc_type'', ty), (''grpc_service'', svc), (''grpc_method'', m)])
           (if rs \<and> (c = GRPC_SERVER_STREAM_MSG_RECEIVED
                      \<or> c = GRPC_SERVER_STREAM_MSG_SENT \<and> \<not> legacy self) then 1 else 0)
           (snd (before_behavior self svc m rs ty (handed_over req)))"
    and "handed_counts Request_delivered 0
           (snd (before_behavior self svc m rs ty (handed_over req)))"
proof -
  let ?l = "[(''grpc_type'', ty), (''grpc_service'', svc), (''grpc_method'', m)]"
  show "handed_counts (Inc c ?l)
           (if rs \<and> (c = GRPC_SERVER_STREAM_MSG_RECEIVED
                      \<or> c = GRPC_SERVER_STREAM_MSG_SENT \<and> \<not> legacy self) then 1 else 0)
           (snd (before_behavior self svc m rs ty (handed_over req)))"
  proof (cases req)
    case (Request x)
    then show ?thesis
      by (simp add: before_behavior_def wrap_iterator_inc_counter_def Let_def)
  next
    case (Request_iterator xs ending)
    with assms
      counts_transport [of "Inc c ?l" xs ending]
      counts_wrapped_once [of "Inc c ?l" "Inc GRPC_SERVER_STREAM_MSG_RECEIVED ?l" xs ending]
      counts_wrapped_twice [of "Inc c ?l" "Inc GRPC_SERVER_STREAM_MSG_RECEIVED ?l"
        "Inc GRPC_SERVER_STREAM_MSG_SENT ?l" xs ending]
    show ?thesis
      by (auto simp: before_behavior_def wrap_iterator_inc_counter_def Let_def)
  qed
  show "handed_counts Request_delivered 0
           (snd (before_behavior self svc m rs ty (handed_over req)))"
  proof (cases req)
    case (Request x)
    then show ?thesis
      by (simp add: before_behavior_def wrap_iterator_inc_counter_def Let_def)
  next
    case (Request_iterator xs ending)
    with
      counts_transport [of Request_delivered xs ending]
      counts_wrapped_once [of Request_delivered "Inc GRPC_SERVER_STREAM_MSG_RECEIVED ?l" xs ending]
      counts_wrapped_twice [of Request_delivered "Inc GRPC_SERVER_STREAM_MSG_RECEIVED ?l"
        "Inc GRPC_SERVER_STREAM_MSG_SENT ?l" xs ending]
    show ?thesis
      by (auto simp: before_behavior_def wrap_iterator_inc_counter_def Let_def)
  qed
qed

lemma call_behavior_count:
  assumes "handed_counts e k v" "handed_counts Request_delivered 0 v"
    and "e \<noteq> Request_delivered" "e \<noteq> Behavior_called"
    and "call_behavior beh v st = (called, st', returned)"
  shows "count_list called e = k * count_list called Request_delivered"
    and "\<And>it. returned = Inr (Iterator it) \<Longrightarrow>
           count_list (fst (consume n it)) e
             = k * count_list (fst (consume n it)) Request_delivered"
proof -
  have "count_list called e = k * count_list called Request_delivered
        \<and> (\<forall>it. returned = Inr (Iterator it) \<longrightarrow>
           count_list (fst (consume n it)) e
             = k * count_list (fst (consume n it)) Request_delivered)"
  proof (cases beh)
    case None
    with assms show ?thesis by (auto simp: call_behavior_def)
  next
    case (Some b)
    obtain evs v' st1 where r: "run_actions (body b) v st = (evs, v', st1)"
      by (cases "run_actions (body b) v st")
    from run_actions_count [OF assms(1-3), of "body b" st] r
    have a: "count_list evs e = k * count_list evs Request_delivered"
      "handed_counts e k v'" "handed_counts Request_delivered 0 v'"
      by simp_all
    from consume_run_generator_count [OF a(2,3) assms(3)] a(1) assms(4,5) Some r
    show ?thesis
      by (auto simp: call_behavior_def split: completion.splits)
  qed
  then show "count_list called e = k * count_list called Request_delivered"
    and "\<And>it. returned = Inr (Iterator it) \<Longrightarrow>
           count_list (fst (consume n it)) e
             = k * count_list (fst (consume n it)) Request_delivered"
    by auto
qed

lemma consume_count_elements_items:
  "fst (snd (consume n (count_elements it inc))) = fst (snd (consume n it))"
  using consume_count_elements [of n it inc] by simp

lemma consume_count_elements_count:
  "count_list (fst (consume n (count_elements it inc))) e =
     count_list (fst (consume n it)) e
     + (if e = inc then length (fst (snd (consume n it))) else 0)"
  using consume_count_elements [of n it inc e] by simp

lemma after_behavior_streaming:
  "snd (after_behavior self svc m True ty w st') =
     Iterator
       (case w of
          Value v \<Rightarrow> Throws [] (Exception ''TypeError'')
        | Iterator it \<Rightarrow>
            if legacy self then
              count_elements it
                (Inc LEGACY_GRPC_SERVER_MSG_SENT_TOTAL_COUNTER
                   [(''grpc_type'', ty), (''grpc_service'', svc), (''grpc_method'', m)])
            else
              count_elements
                (count_elements it
                   (Inc GRPC_SERVER_STREAM_MSG_RECEIVED
                      [(''grpc_type'', ty), (''grpc_service'', svc), (''grpc_method'', m)]))
                (Inc GRPC_SERVER_STREAM_MSG_SENT
                   [(''grpc_type'', ty), (''grpc_service'', svc), (''grpc_method'', m)]))"
  by (cases w) (simp_all add: after_behavior_def wrap_iterator_inc_counter_def Let_def)

lemma consume_Throws_nothing:
  "fst (consume n (Throws [] ex)) = [] \<and> fst (snd (consume n (Throws [] ex))) = []"
  by (cases n) simp_all

lemma call_events_count:
  assumes c: "c = GRPC_SERVER_STREAM_MSG_RECEIVED \<or> c = GRPC_SERVER_STREAM_MSG_SENT
           \<or> c = LEGACY_GRPC_SERVER_MSG_RECEIVED_TOTAL_COUNTER
           \<or> c = LEGACY_GRPC_SERVER_MSG_SENT_TOTAL_COUNTER"
  shows "count_list (call_events self svc m beh rs ps req st start now n)
           (Inc c [(''grpc_type'', get_method_type rs ps), (''grpc_service'', svc),
                   (''grpc_method'', m)]) =
         (if rs \<and> (c = GRPC_SERVER_STREAM_MSG_RECEIVED
                    \<or> c = GRPC_SERVER_STREAM_MSG_SENT \<and> \<not> legacy self) then 1 else 0)
           * count_list (call_events self svc m beh rs ps req st start now n) Request_delivered
         + (if ps \<and> (\<not> legacy self \<and> (c = GRPC_SERVER_STREAM_MSG_RECEIVED
                                         \<or> c = GRPC_SERVER_STREAM_MSG_SENT)
                     \<or> legacy self \<and> c = LEGACY_GRPC_SERVER_MSG_SENT_TOTAL_COUNTER)
            then 1 else 0)
           * length (call_responses self svc m beh rs ps req st start now n)"
proof -
  let ?ty = "get_method_type rs ps"
  let ?l = "[(''grpc_type'', ?ty), (''grpc_service'', svc), (''grpc_method'', m)]"
  let ?e = "Inc c ?l"
  let ?kq = "if rs \<and> (c = GRPC_SERVER_STREAM_MSG_RECEIVED
                    \<or> c = GRPC_SERVER_STREAM_MSG_SENT \<and> \<not> legacy self) then 1 else 0 :: nat"
  let ?kp = "if ps \<and> (\<not> legacy self \<and> (c = GRPC_SERVER_STREAM_MSG_RECEIVED
                                         \<or> c = GRPC_SERVER_STREAM_MSG_SENT)
                     \<or> legacy self \<and> c = LEGACY_GRPC_SERVER_MSG_SENT_TOTAL_COUNTER)
            then 1 else 0 :: nat"
  let ?req = "snd (before_behavior self svc m rs ?ty (handed_over req))"
  let ?r = "new_behavior self svc m beh rs ps (handed_over req) st start now"
  let ?S = "fst (streamed ps ?r n)"
  let ?items = "fst (snd (streamed ps ?r n))"
  obtain called st' returned where cb: "call_behavior beh ?req st = (called, st', returned)"
    by (cases "call_behavior beh ?req st")
  note hq = before_behavior_counts [OF c, where ty = ?ty and svc = svc and m = m and rs = rs
      and self = self and req = req]
  have ne: "?e \<noteq> Request_delivered" "?e \<noteq> Behavior_called" by simp_all
  note cbc = call_behavior_count [OF hq(1) hq(2) ne cb]
  have pre: "count_list (fst (before_behavior self svc m rs ?ty (handed_over req))) ?e = 0"
    "count_list (fst (before_behavior self svc m rs ?ty (handed_over req))) Request_delivered = 0"
    using c by (auto simp: before_behavior_def Let_def)
  have mid: "count_list
      (case returned of
         Inl ex \<Rightarrow> except_RpcError self svc m ?ty ex
       | Inr w \<Rightarrow> fst (after_behavior self svc m ps ?ty w st')) ?e = 0"
    "count_list
      (case returned of
         Inl ex \<Rightarrow> except_RpcError self svc m ?ty ex
       | Inr w \<Rightarrow> fst (after_behavior self svc m ps ?ty w st')) Request_delivered = 0"
    using c by (auto simp: except_RpcError_def after_behavior_def Let_def split: sum.splits)
  have fin: "count_list (finally_clause self svc m ps ?ty start now) ?e = 0"
    "count_list (finally_clause self svc m ps ?ty start now) Request_delivered = 0"
    by (simp_all add: finally_clause_def)
  have rec: "count_list (recorded ?r) ?e = ?kq * count_list (recorded ?r) Request_delivered"
    using new_behavior_anatomy(1) [OF cb, of start now] pre mid fin cbc(1) by simp
  have str: "count_list ?S ?e = ?kq * count_list ?S Request_delivered + ?kp * length ?items"
  proof (cases ps)
    case False
    then show ?thesis by (simp add: streamed_def)
  next
    case True
    show ?thesis
    proof (cases returned)
      case (Inl ex)
      with new_behavior_anatomy(2) [OF cb, of start now] True show ?thesis
        by (simp add: streamed_def)
    next
      case (Inr w)
      show ?thesis
      proof (cases w)
        case (Value v)
        with new_behavior_anatomy(2) [OF cb, of start now] True Inr
          after_behavior_streaming [of self svc m ?ty w st']
        show ?thesis
          by (simp add: streamed_def consume_Throws_nothing)
      next
        case (Iterator it)
        from cbc(2) [of it n] Inr Iterator
        have inner: "count_list (fst (consume n it)) ?e
            = ?kq * count_list (fst (consume n it)) Request_delivered" by simp
        show ?thesis
        proof (cases "legacy self")
          case l: True
          with new_behavior_anatomy(2) [OF cb, of start now] True Inr Iterator
            after_behavior_streaming [of self svc m ?ty w st']
          have "streamed ps ?r n = consume n (count_elements it
                (Inc LEGACY_GRPC_SERVER_MSG_SENT_TOTAL_COUNTER ?l))"
            by (simp add: streamed_def)
          with inner l True c show ?thesis
            by (auto simp: consume_count_elements_items consume_count_elements_count)
        next
          case l: False
          with new_behavior_anatomy(2) [OF cb, of start now] True Inr Iterator
            after_behavior_streaming [of self svc m ?ty w st']
          have "streamed ps ?r n = consume n (count_elements (count_elements it
                (Inc GRPC_SERVER_STREAM_MSG_RECEIVED ?l)) (Inc GRPC_SERVER_STREAM_MSG_SENT ?l))"
            by (simp add: streamed_def)
          with inner l True c show ?thesis
            by (auto simp: consume_count_elements_items consume_count_elements_count)
        qed
      qed
    qed
  qed
  show ?thesis
    unfolding call_events_def call_responses_def Let_def
    using rec str by (simp add: algebra_simps)
qed

lemma call_behavior_starts:
  "\<exists>evs. fst (call_behavior beh v st) = Behavior_called # evs"
  by (cases beh) (auto simp: call_behavior_def split: prod.splits)

lemma before_behavior_counted_after:
  "\<exists>w. snd (before_behavior self svc m True ty (handed_over (Request_iterator xs ending)))
          = Iterator w
       \<and> counted_after
           (Inc GRPC_SERVER_STREAM_MSG_RECEIVED
              [(''grpc_type'', ty), (''grpc_service'', svc), (''grpc_method'', m)]
            # (if legacy self then []
               else [Inc GRPC_SERVER_STREAM_MSG_SENT
                       [(''grpc_type'', ty), (''grpc_service'', svc), (''grpc_method'', m)]]))
           (transport_iterator xs ending) w"
proof -
  let ?l = "[(''grpc_type'', ty), (''grpc_service'', svc), (''grpc_method'', m)]"
  let ?it = "transport_iterator xs ending"
  have one: "counted_after ([] @ [Inc GRPC_SERVER_STREAM_MSG_RECEIVED ?l]) ?it
      (count_elements ?it (Inc GRPC_SERVER_STREAM_MSG_RECEIVED ?l))"
    by (rule counted_after_count_elements [OF counted_after_refl])
  have two: "counted_after
      (([] @ [Inc GRPC_SERVER_STREAM_MSG_RECEIVED ?l]) @ [Inc GRPC_SERVER_STREAM_MSG_SENT ?l]) ?it
      (count_elements (count_elements ?it (Inc GRPC_SERVER_STREAM_MSG_RECEIVED ?l))
         (Inc GRPC_SERVER_STREAM_MSG_SENT ?l))"
    by (rule counted_after_count_elements [OF one])
  from one two show ?thesis
    by (simp add: before_behavior_def wrap_iterator_inc_counter_def Let_def)
qed

lemmas interceptor_defs =
  new_behavior_def try_block_def before_behavior_def after_behavior_def call_behavior_def
  except_RpcError_def finally_clause_def wrap_iterator_inc_counter_def get_method_type_def
  compute_status_code_def call_events_def call_responses_def streamed_def init_def Let_def

section \<open>The claims\<close>

text \<open>
  In the statements, \<open>call_events ... n\<close> is everything a call writes, the runtime's first
  \<open>n\<close> pulls of a streamed response included, and \<open>written P\<close> selects the writes to the
  metrics that satisfy \<open>P\<close>.
\<close>

text \<open>
  Claim C1, at a request-streaming call in legacy mode whose handler pulls the one request
  of the stream and returns: the element is counted on \<open>GRPC_SERVER_STREAM_MSG_RECEIVED\<close>,
  a metric of the default family, and not on
  \<open>LEGACY_GRPC_SERVER_MSG_RECEIVED_TOTAL_COUNTER\<close>. Line 54 passes the default counter
  where \<open>received_metric\<close> of lines 47 to 49 was computed for it.
\<close>

theorem legacy_request_stream_counts_default_received:
  "recorded
     (new_behavior (init False True) ''Greeter'' ''Collect''
        (Some (Behavior [Next_request] (Return (1::nat))))
        True False (handed_over (Request_iterator [0::nat] None))
        \<lparr>client = ''open'', code = None\<rparr> 1 3) =
   [Behavior_called,
    Inc GRPC_SERVER_STREAM_MSG_RECEIVED
      [(''grpc_type'', ''CLIENT_STREAM''), (''grpc_service'', ''Greeter''),
       (''grpc_method'', ''Collect'')],
    Request_delivered,
    Inc LEGACY_GRPC_SERVER_HANDLED_TOTAL_COUNTER
      [(''grpc_type'', ''CLIENT_STREAM''), (''grpc_service'', ''Greeter''),
       (''grpc_method'', ''Collect''), (''code'', ''OK'')],
    Observe LEGACY_GRPC_SERVER_HANDLED_LATENCY_SECONDS
      [(''grpc_type'', ''CLIENT_STREAM''), (''grpc_service'', ''Greeter''),
       (''grpc_method'', ''Collect'')] 2]
   \<and> \<not> legacy_family GRPC_SERVER_STREAM_MSG_RECEIVED"
  by (simp add: interceptor_defs)

text \<open>
  Claim C2, as amended. A response-streaming call never observes a latency, and once the
  original behavior has returned its iterator no handled counter is incremented, however
  long the stream is pulled and however it ends. The one handled increment such a call
  can make is the one of the \<open>except\<close> clause, when the call of the behavior itself
  raises a \<open>grpc.RpcError\<close>; its code is the error's own when the error is a
  \<open>grpc.Call\<close> and UNKNOWN otherwise.
\<close>

theorem streamed_response_handled_only_by_except:
  "filter (written latency_metric) (call_events self svc m beh rs True req st start now n) = []
   \<and> filter (written handled_metric) (call_events self svc m beh rs True req st start now n) =
       (case result (new_behavior self svc m beh rs True (handed_over req) st start now) of
          Inl e \<Rightarrow>
            if isinstance_RpcError e then
              [Inc (if legacy self then LEGACY_GRPC_SERVER_HANDLED_TOTAL_COUNTER
                    else GRPC_SERVER_HANDLED_COUNTER)
                 [(''grpc_type'', get_method_type rs True), (''grpc_service'', svc),
                  (''grpc_method'', m),
                  (''code'',
                   case e of RpcError_Call c d \<Rightarrow> name c | RpcError d \<Rightarrow> ''UNKNOWN''
                   | Exception d \<Rightarrow> ''UNKNOWN'')]]
            else []
        | Inr w \<Rightarrow> [])"
proof -
  obtain called st' returned where cb:
    "call_behavior beh
       (snd (before_behavior self svc m rs (get_method_type rs True) (handed_over req))) st
     = (called, st', returned)"
    by (cases "call_behavior beh
       (snd (before_behavior self svc m rs (get_method_type rs True) (handed_over req))) st")
  have pre: "filter (written latency_metric)
      (fst (before_behavior self svc m rs (get_method_type rs True) (handed_over req))) = []"
    "filter (written handled_metric)
      (fst (before_behavior self svc m rs (get_method_type rs True) (handed_over req))) = []"
    by (simp_all add: before_behavior_def Let_def)
  have mid: "filter (written latency_metric)
      (case returned of
         Inl e \<Rightarrow> except_RpcError self svc m (get_method_type rs True) e
       | Inr w \<Rightarrow> fst (after_behavior self svc m True (get_method_type rs True) w st')) = []"
    by (simp add: except_RpcError_def after_behavior_def Let_def split: sum.splits)
  have lat: "filter (written latency_metric)
      (call_events self svc m beh rs True req st start now n) = []"
    using call_events_writes [of latency_metric, OF _ _ _ cb, of start now n] pre(1) mid
    by (simp add: finally_clause_def)
  have han: "filter (written handled_metric)
      (call_events self svc m beh rs True req st start now n) =
      (case returned of
         Inl e \<Rightarrow> except_RpcError self svc m (get_method_type rs True) e
       | Inr w \<Rightarrow> [])"
    using call_events_writes [of handled_metric, OF _ _ _ cb, of start now n] pre(2)
    by (simp add: finally_clause_def except_RpcError_def after_behavior_def Let_def
          split: sum.splits)
  have "(case returned of
         Inl e \<Rightarrow> except_RpcError self svc m (get_method_type rs True) e
       | Inr w \<Rightarrow> []) =
       (case result (new_behavior self svc m beh rs True (handed_over req) st start now) of
          Inl e \<Rightarrow>
            if isinstance_RpcError e then
              [Inc (if legacy self then LEGACY_GRPC_SERVER_HANDLED_TOTAL_COUNTER
                    else GRPC_SERVER_HANDLED_COUNTER)
                 [(''grpc_type'', get_method_type rs True), (''grpc_service'', svc),
                  (''grpc_method'', m),
                  (''code'',
                   case e of RpcError_Call c d \<Rightarrow> name c | RpcError d \<Rightarrow> ''UNKNOWN''
                   | Exception d \<Rightarrow> ''UNKNOWN'')]]
            else []
        | Inr w \<Rightarrow> [])"
  proof (cases returned)
    case (Inl e)
    with new_behavior_anatomy(2) [OF cb, of start now] show ?thesis
      by (cases e) (simp_all add: except_RpcError_def)
  next
    case (Inr w)
    with new_behavior_anatomy(2) [OF cb, of start now] show ?thesis by simp
  qed
  with lat han show ?thesis by simp
qed

theorem streamed_response_handled_only_by_except_witness:
  "filter (written latency_metric)
     (call_events (init True False) ''Greeter'' ''ListGreetings''
        (Some (Behavior [] (Return_iterator (Yield [] (7::nat) (Raise_generator []
           (RpcError_Call INTERNAL ''late''))))))
        False True (Request (0::nat)) \<lparr>client = ''open'', code = None\<rparr> 1 3 5) = []
   \<and> filter (written handled_metric)
     (call_events (init True False) ''Greeter'' ''ListGreetings''
        (Some (Behavior [] (Return_iterator (Yield [] (7::nat) (Raise_generator []
           (RpcError_Call INTERNAL ''late''))))))
        False True (Request (0::nat)) \<lparr>client = ''open'', code = None\<rparr> 1 3 5) = []"
  using streamed_response_handled_only_by_except [of "init True False" "''Greeter''"
      "''ListGreetings''"
      "Some (Behavior [] (Return_iterator (Yield [] (7::nat) (Raise_generator []
           (RpcError_Call INTERNAL ''late'')))))"
      False "Request (0::nat)" "\<lparr>client = ''open'', code = None\<rparr>" 1 3 5]
  by (simp add: interceptor_defs)

text \<open>
  Claim C2 as stated fails: a response-streaming call whose behavior raises NOT_FOUND when
  it is called increments the handled counter.
\<close>

theorem streamed_response_handled_counterexample:
  "filter (written handled_metric)
     (call_events (init False False) ''Greeter'' ''ListGreetings''
        (Some (Behavior [] (Raise (RpcError_Call NOT_FOUND ''no such user'')) :: nat behavior))
        False True (Request (0::nat)) \<lparr>client = ''open'', code = None\<rparr> 1 3 5) =
   [Inc GRPC_SERVER_HANDLED_COUNTER
      [(''grpc_type'', ''SERVER_STREAM''), (''grpc_service'', ''Greeter''),
       (''grpc_method'', ''ListGreetings''), (''code'', ''NOT_FOUND'')]]"
  by (simp add: interceptor_defs)

text \<open>
  Claim C3, as amended. When the handler raises an exception that is not a
  \<open>grpc.RpcError\<close>, the same exception leaves \<open>new_behavior\<close>, no handled counter is
  incremented, and what the call has written is what was written before the exception,
  followed by the latency observation of the \<open>finally\<close> clause when the call is not
  response-streaming and legacy mode or the histogram flag is on.
\<close>

theorem non_rpc_fault_passes_through:
  assumes "completion b = Raise e" and "\<not> isinstance_RpcError e"
  shows "result (new_behavior self svc m (Some b) rs ps (handed_over req) st start now) = Inl e
       \<and> filter (written handled_metric)
           (call_events self svc m (Some b) rs ps req st start now n) = []
       \<and> recorded (new_behavior self svc m (Some b) rs ps (handed_over req) st start now) =
           fst (before_behavior self svc m rs (get_method_type rs ps) (handed_over req)) @
           fst (call_behavior (Some b)
                  (snd (before_behavior self svc m rs (get_method_type rs ps) (handed_over req)))
                  st) @
           (if ps then []
            else if legacy self then
              [Observe LEGACY_GRPC_SERVER_HANDLED_LATENCY_SECONDS
                 [(''grpc_type'', get_method_type rs ps), (''grpc_service'', svc),
                  (''grpc_method'', m)]
                 (max (now - start) 0)]
            else if enable_handling_time_histogram self then
              [Observe GRPC_SERVER_HANDLED_HISTOGRAM
                 [(''grpc_type'', get_method_type rs ps), (''grpc_service'', svc),
                  (''grpc_method'', m)]
                 (max (now - start) 0)]
            else [])"
proof -
  obtain called st' returned where cb:
    "call_behavior (Some b)
       (snd (before_behavior self svc m rs (get_method_type rs ps) (handed_over req))) st
     = (called, st', returned)"
    by (cases "call_behavior (Some b)
       (snd (before_behavior self svc m rs (get_method_type rs ps) (handed_over req))) st")
  with assms(1) have ret: "returned = Inl e"
    by (auto simp: call_behavior_def split: prod.splits)
  have pre: "filter (written handled_metric)
      (fst (before_behavior self svc m rs (get_method_type rs ps) (handed_over req))) = []"
    by (simp add: before_behavior_def Let_def)
  have "filter (written handled_metric)
           (call_events self svc m (Some b) rs ps req st start now n) = []"
    using call_events_writes [of handled_metric, OF _ _ _ cb, of start now n] pre ret assms(2)
    by (simp add: finally_clause_def except_RpcError_def)
  moreover have "result (new_behavior self svc m (Some b) rs ps (handed_over req) st start now)
      = Inl e"
    using new_behavior_anatomy(2) [OF cb, of start now] ret by simp
  moreover have "recorded (new_behavior self svc m (Some b) rs ps (handed_over req) st start now) =
           fst (before_behavior self svc m rs (get_method_type rs ps) (handed_over req)) @
           fst (call_behavior (Some b)
                  (snd (before_behavior self svc m rs (get_method_type rs ps) (handed_over req)))
                  st) @
           (if ps then []
            else if legacy self then
              [Observe LEGACY_GRPC_SERVER_HANDLED_LATENCY_SECONDS
                 [(''grpc_type'', get_method_type rs ps), (''grpc_service'', svc),
                  (''grpc_method'', m)]
                 (max (now - start) 0)]
            else if enable_handling_time_histogram self then
              [Observe GRPC_SERVER_HANDLED_HISTOGRAM
                 [(''grpc_type'', get_method_type rs ps), (''grpc_service'', svc),
                  (''grpc_method'', m)]
                 (max (now - start) 0)]
            else [])"
    using new_behavior_anatomy(1) [OF cb, of start now] ret assms(2) cb
    by (simp add: finally_clause_def except_RpcError_def)
  ultimately show ?thesis by simp
qed

theorem non_rpc_fault_passes_through_witness:
  "completion (Behavior [] (Raise (Exception ''boom'')) :: nat behavior) = Raise (Exception ''boom'')
   \<and> \<not> isinstance_RpcError (Exception ''boom'')
   \<and> result (new_behavior (init True False) ''Greeter'' ''SayHello''
        (Some (Behavior [] (Raise (Exception ''boom'')) :: nat behavior))
        False False (handed_over (Request (0::nat))) \<lparr>client = ''open'', code = None\<rparr> 1 3)
     = Inl (Exception ''boom'')
   \<and> filter (written handled_metric)
       (call_events (init True False) ''Greeter'' ''SayHello''
          (Some (Behavior [] (Raise (Exception ''boom'')) :: nat behavior))
          False False (Request (0::nat)) \<lparr>client = ''open'', code = None\<rparr> 1 3 0) = []
   \<and> recorded (new_behavior (init True False) ''Greeter'' ''SayHello''
        (Some (Behavior [] (Raise (Exception ''boom'')) :: nat behavior))
        False False (handed_over (Request (0::nat))) \<lparr>client = ''open'', code = None\<rparr> 1 3) =
     [Inc GRPC_SERVER_STARTED_COUNTER
        [(''grpc_type'', ''UNARY''), (''grpc_service'', ''Greeter''),
         (''grpc_method'', ''SayHello'')],
      Behavior_called,
      Observe GRPC_SERVER_HANDLED_HISTOGRAM
        [(''grpc_type'', ''UNARY''), (''grpc_service'', ''Greeter''),
         (''grpc_method'', ''SayHello'')] 2]"
  using non_rpc_fault_passes_through [of "Behavior [] (Raise (Exception ''boom'')) :: nat behavior"
      "Exception ''boom''" "init True False" "''Greeter''" "''SayHello''" False False
      "Request (0::nat)" "\<lparr>client = ''open'', code = None\<rparr>" 1 3 0]
  by (simp add: init_def get_method_type_def before_behavior_def call_behavior_def)

text \<open>
  Claim C3 as stated fails: in legacy mode a unary call whose handler raises \<open>Exception\<close>
  has a latency observation after the writes made before the exception.
\<close>

theorem non_rpc_fault_counterexample:
  "recorded
     (new_behavior (init False True) ''Greeter'' ''SayHello''
        (Some (Behavior [] (Raise (Exception ''boom'')) :: nat behavior))
        False False (handed_over (Request (0::nat))) \<lparr>client = ''open'', code = None\<rparr> 1 3) =
   [Inc LEGACY_GRPC_SERVER_STARTED_TOTAL_COUNTER
      [(''grpc_type'', ''UNARY''), (''grpc_service'', ''Greeter''),
       (''grpc_method'', ''SayHello'')],
    Behavior_called,
    Observe LEGACY_GRPC_SERVER_HANDLED_LATENCY_SECONDS
      [(''grpc_type'', ''UNARY''), (''grpc_service'', ''Greeter''),
       (''grpc_method'', ''SayHello'')] 2]
   \<and> fst (before_behavior (init False True) ''Greeter'' ''SayHello'' False ''UNARY''
             (handed_over (Request (0::nat)))) @
     fst (call_behavior (Some (Behavior [] (Raise (Exception ''boom'')) :: nat behavior))
            (snd (before_behavior (init False True) ''Greeter'' ''SayHello'' False ''UNARY''
                    (handed_over (Request (0::nat)))))
            \<lparr>client = ''open'', code = None\<rparr>) =
   [Inc LEGACY_GRPC_SERVER_STARTED_TOTAL_COUNTER
      [(''grpc_type'', ''UNARY''), (''grpc_service'', ''Greeter''),
       (''grpc_method'', ''SayHello'')],
    Behavior_called]"
  by (simp add: interceptor_defs)

text \<open>
  Claim C4. When the handler of a call that is not response-streaming raises a
  \<open>grpc.RpcError\<close>, exactly one handled counter is incremented, in the family of the
  mode, with the error's own code when the error is a \<open>grpc.Call\<close> and UNKNOWN
  otherwise, and the same exception leaves \<open>new_behavior\<close>.
\<close>

theorem handled_once_on_rpc_error:
  assumes "completion b = Raise e" and "isinstance_RpcError e"
  shows "filter (written handled_metric)
           (call_events self svc m (Some b) rs False req st start now n) =
         [Inc (if legacy self then LEGACY_GRPC_SERVER_HANDLED_TOTAL_COUNTER
               else GRPC_SERVER_HANDLED_COUNTER)
            [(''grpc_type'', get_method_type rs False), (''grpc_service'', svc),
             (''grpc_method'', m),
             (''code'',
              case e of RpcError_Call c d \<Rightarrow> name c | RpcError d \<Rightarrow> ''UNKNOWN''
              | Exception d \<Rightarrow> ''UNKNOWN'')]]
       \<and> result (new_behavior self svc m (Some b) rs False (handed_over req) st start now)
           = Inl e"
proof -
  obtain called st' returned where cb:
    "call_behavior (Some b)
       (snd (before_behavior self svc m rs (get_method_type rs False) (handed_over req))) st
     = (called, st', returned)"
    by (cases "call_behavior (Some b)
       (snd (before_behavior self svc m rs (get_method_type rs False) (handed_over req))) st")
  with assms(1) have ret: "returned = Inl e"
    by (auto simp: call_behavior_def split: prod.splits)
  have pre: "filter (written handled_metric)
      (fst (before_behavior self svc m rs (get_method_type rs False) (handed_over req))) = []"
    by (simp add: before_behavior_def Let_def)
  show ?thesis
    using call_events_writes [of handled_metric, OF _ _ _ cb, of start now n] pre ret assms(2)
      new_behavior_anatomy(2) [OF cb, of start now]
    by (cases e) (simp_all add: finally_clause_def except_RpcError_def)
qed

theorem handled_once_on_rpc_error_witness:
  "completion (Behavior [] (Raise (RpcError ''lost'')) :: nat behavior) = Raise (RpcError ''lost'')
   \<and> isinstance_RpcError (RpcError ''lost'')
   \<and> filter (written handled_metric)
       (call_events (init False True) ''Greeter'' ''SayHello''
          (Some (Behavior [] (Raise (RpcError ''lost'')) :: nat behavior))
          False False (Request (0::nat)) \<lparr>client = ''open'', code = None\<rparr> 1 3 0) =
     [Inc LEGACY_GRPC_SERVER_HANDLED_TOTAL_COUNTER
        [(''grpc_type'', ''UNARY''), (''grpc_service'', ''Greeter''),
         (''grpc_method'', ''SayHello''), (''code'', ''UNKNOWN'')]]
   \<and> result (new_behavior (init False True) ''Greeter'' ''SayHello''
        (Some (Behavior [] (Raise (RpcError ''lost'')) :: nat behavior))
        False False (handed_over (Request (0::nat))) \<lparr>client = ''open'', code = None\<rparr> 1 3)
     = Inl (RpcError ''lost'')"
  using handled_once_on_rpc_error [of "Behavior [] (Raise (RpcError ''lost'')) :: nat behavior"
      "RpcError ''lost''" "init False True" "''Greeter''" "''SayHello''" False "Request (0::nat)"
      "\<lparr>client = ''open'', code = None\<rparr>" 1 3 0]
  by (simp add: init_def get_method_type_def)

text \<open>
  Claim C5. When a call that is not response-streaming returns, exactly one handled
  counter is incremented, in the family of the mode. Its code is CANCELLED when the
  context's \<open>client\<close> is \<open>cancelled\<close>, OK when no code was set, and the code that was
  set otherwise, read from the state the handler left; that state is the one the context
  still has when \<open>new_behavior\<close> returns.
\<close>

theorem handled_once_on_success:
  assumes "result (new_behavior self svc m (Some b) rs False (handed_over req) st start now)
             = Inr w"
  shows "state_after (new_behavior self svc m (Some b) rs False (handed_over req) st start now)
           = last_state (body b) st
         \<and> filter (written handled_metric)
             (call_events self svc m (Some b) rs False req st start now n) =
           [Inc (if legacy self then LEGACY_GRPC_SERVER_HANDLED_TOTAL_COUNTER
                 else GRPC_SERVER_HANDLED_COUNTER)
              [(''grpc_type'', get_method_type rs False), (''grpc_service'', svc),
               (''grpc_method'', m),
               (''code'',
                name (if client (last_state (body b) st) = ''cancelled'' then CANCELLED
                      else if code (last_state (body b) st) = None then OK
                      else the (code (last_state (body b) st))))]]"
proof -
  obtain called st' returned where cb:
    "call_behavior (Some b)
       (snd (before_behavior self svc m rs (get_method_type rs False) (handed_over req))) st
     = (called, st', returned)"
    by (cases "call_behavior (Some b)
       (snd (before_behavior self svc m rs (get_method_type rs False) (handed_over req))) st")
  then have st': "st' = last_state (body b) st"
    using run_actions_state [of "body b"
        "snd (before_behavior self svc m rs (get_method_type rs False) (handed_over req))" st]
    by (auto simp: call_behavior_def split: prod.splits)
  from assms new_behavior_anatomy(2) [OF cb, of start now]
  obtain w' where ret: "returned = Inr w'" by (cases returned) auto
  have pre: "filter (written handled_metric)
      (fst (before_behavior self svc m rs (get_method_type rs False) (handed_over req))) = []"
    by (simp add: before_behavior_def Let_def)
  show ?thesis
    using call_events_writes [of handled_metric, OF _ _ _ cb, of start now n] pre ret st'
      new_behavior_anatomy(3) [OF cb, of start now]
    by (simp add: finally_clause_def after_behavior_def compute_status_code_def)
qed

theorem handled_once_on_success_witness:
  "result (new_behavior (init False False) ''Greeter'' ''SayHello''
      (Some (Behavior [Set_state \<lparr>client = ''open'', code = Some NOT_FOUND\<rparr>] (Return (1::nat))))
      False False (handed_over (Request (0::nat))) \<lparr>client = ''open'', code = None\<rparr> 1 3)
     = Inr (Value 1)
   \<and> state_after (new_behavior (init False False) ''Greeter'' ''SayHello''
      (Some (Behavior [Set_state \<lparr>client = ''open'', code = Some NOT_FOUND\<rparr>] (Return (1::nat))))
      False False (handed_over (Request (0::nat))) \<lparr>client = ''open'', code = None\<rparr> 1 3)
     = \<lparr>client = ''open'', code = Some NOT_FOUND\<rparr>
   \<and> filter (written handled_metric)
       (call_events (init False False) ''Greeter'' ''SayHello''
          (Some (Behavior [Set_state \<lparr>client = ''open'', code = Some NOT_FOUND\<rparr>]
             (Return (1::nat))))
          False False (Request (0::nat)) \<lparr>client = ''open'', code = None\<rparr> 1 3 0) =
     [Inc GRPC_SERVER_HANDLED_COUNTER
        [(''grpc_type'', ''UNARY''), (''grpc_service'', ''Greeter''),
         (''grpc_method'', ''SayHello''), (''code'', ''NOT_FOUND'')]]"
proof -
  have h: "result (new_behavior (init False False) ''Greeter'' ''SayHello''
      (Some (Behavior [Set_state \<lparr>client = ''open'', code = Some NOT_FOUND\<rparr>] (Return (1::nat))))
      False False (handed_over (Request (0::nat))) \<lparr>client = ''open'', code = None\<rparr> 1 3)
     = Inr (Value 1)"
    by (simp add: interceptor_defs)
  show ?thesis
    using h handled_once_on_success [OF h, of 0]
    by (simp add: init_def get_method_type_def)
qed

text \<open>
  Claim C6. A call that is not response-streaming observes \<open>max (now - start) 0\<close> exactly
  once, on the legacy latency metric in legacy mode and on the histogram when legacy mode
  is off and the histogram flag is on, and observes nothing when both are off, whatever
  the handler does. The observed value is not negative.
\<close>

theorem latency_observed_once:
  "filter (written latency_metric) (call_events self svc m beh rs False req st start now n) =
     (if legacy self then
        [Observe LEGACY_GRPC_SERVER_HANDLED_LATENCY_SECONDS
           [(''grpc_type'', get_method_type rs False), (''grpc_service'', svc),
            (''grpc_method'', m)]
           (max (now - start) 0)]
      else if enable_handling_time_histogram self then
        [Observe GRPC_SERVER_HANDLED_HISTOGRAM
           [(''grpc_type'', get_method_type rs False), (''grpc_service'', svc),
            (''grpc_method'', m)]
           (max (now - start) 0)]
      else [])
   \<and> 0 \<le> max (now - start) 0"
proof -
  obtain called st' returned where cb:
    "call_behavior beh
       (snd (before_behavior self svc m rs (get_method_type rs False) (handed_over req))) st
     = (called, st', returned)"
    by (cases "call_behavior beh
       (snd (before_behavior self svc m rs (get_method_type rs False) (handed_over req))) st")
  have pre: "filter (written latency_metric)
      (fst (before_behavior self svc m rs (get_method_type rs False) (handed_over req))) = []"
    by (simp add: before_behavior_def Let_def)
  have mid: "filter (written latency_metric)
      (case returned of
         Inl e \<Rightarrow> except_RpcError self svc m (get_method_type rs False) e
       | Inr w \<Rightarrow> fst (after_behavior self svc m False (get_method_type rs False) w st')) = []"
    by (simp add: except_RpcError_def after_behavior_def split: sum.splits)
  show ?thesis
    using call_events_writes [of latency_metric, OF _ _ _ cb, of start now n] pre mid
    by (simp add: finally_clause_def)
qed

theorem latency_observed_once_witness:
  "filter (written latency_metric)
     (call_events (init True False) ''Greeter'' ''SayHello''
        (Some (Behavior [] (Return (1::nat)))) False False (Request (0::nat))
        \<lparr>client = ''open'', code = None\<rparr> 5 3 0) =
   [Observe GRPC_SERVER_HANDLED_HISTOGRAM
      [(''grpc_type'', ''UNARY''), (''grpc_service'', ''Greeter''),
       (''grpc_method'', ''SayHello'')] 0]"
  using latency_observed_once [of "init True False" "''Greeter''" "''SayHello''"
      "Some (Behavior [] (Return (1::nat)))" False "Request (0::nat)"
      "\<lparr>client = ''open'', code = None\<rparr>" 5 3 0]
  by (simp add: init_def get_method_type_def)

text \<open>
  Claim C7. A call that is not request-streaming first increments the started counter of
  its mode and then calls the original behavior, and this is the only started increment
  of the call. A request-streaming call increments no started counter; every request
  element reaches the handler right after one increment of
  \<open>GRPC_SERVER_STREAM_MSG_RECEIVED\<close> (followed, when legacy mode is off, by one of
  \<open>GRPC_SERVER_STREAM_MSG_SENT\<close>), and the received increments of the whole call are one
  for each request delivered to the handler, besides the one for each response that a
  response-streaming call adds when legacy mode is off.
\<close>

theorem started_once_or_received_per_request:
  "take 2 (call_events self svc m beh False ps req st start now n) =
     [Inc (if legacy self then LEGACY_GRPC_SERVER_STARTED_TOTAL_COUNTER
           else GRPC_SERVER_STARTED_COUNTER)
        [(''grpc_type'', get_method_type False ps), (''grpc_service'', svc),
         (''grpc_method'', m)],
      Behavior_called]
   \<and> filter (written started_metric) (call_events self svc m beh False ps req st start now n) =
     [Inc (if legacy self then LEGACY_GRPC_SERVER_STARTED_TOTAL_COUNTER
           else GRPC_SERVER_STARTED_COUNTER)
        [(''grpc_type'', get_method_type False ps), (''grpc_service'', svc),
         (''grpc_method'', m)]]
   \<and> filter (written started_metric) (call_events self svc m beh True ps req st start now n) = []
   \<and> count_list (call_events self svc m beh True ps req st start now n)
       (Inc GRPC_SERVER_STREAM_MSG_RECEIVED
          [(''grpc_type'', get_method_type True ps), (''grpc_service'', svc),
           (''grpc_method'', m)]) =
     count_list (call_events self svc m beh True ps req st start now n) Request_delivered
     + (if ps \<and> \<not> legacy self
        then length (call_responses self svc m beh True ps req st start now n) else 0)
   \<and> (\<exists>w. snd (before_behavior self svc m True (get_method_type True ps)
                  (handed_over (Request_iterator xs ending))) = Iterator w
          \<and> counted_after
              (Inc GRPC_SERVER_STREAM_MSG_RECEIVED
                 [(''grpc_type'', get_method_type True ps), (''grpc_service'', svc),
                  (''grpc_method'', m)]
               # (if legacy self then []
                  else [Inc GRPC_SERVER_STREAM_MSG_SENT
                          [(''grpc_type'', get_method_type True ps), (''grpc_service'', svc),
                           (''grpc_method'', m)]]))
              (transport_iterator xs ending) w)"
proof -
  let ?started = "Inc (if legacy self then LEGACY_GRPC_SERVER_STARTED_TOTAL_COUNTER
           else GRPC_SERVER_STARTED_COUNTER)
        [(''grpc_type'', get_method_type False ps), (''grpc_service'', svc),
         (''grpc_method'', m)]"
  have pre: "fst (before_behavior self svc m False (get_method_type False ps) (handed_over req))
      = [?started]"
    by (simp add: before_behavior_def Let_def)
  obtain called st' returned where cb:
    "call_behavior beh
       (snd (before_behavior self svc m False (get_method_type False ps) (handed_over req))) st
     = (called, st', returned)"
    by (cases "call_behavior beh
       (snd (before_behavior self svc m False (get_method_type False ps) (handed_over req))) st")
  from call_behavior_starts [of beh
      "snd (before_behavior self svc m False (get_method_type False ps) (handed_over req))" st] cb
  obtain evs where called: "called = Behavior_called # evs" by auto
  have a1: "take 2 (call_events self svc m beh False ps req st start now n)
      = [?started, Behavior_called]"
    unfolding call_events_def Let_def
    using new_behavior_anatomy(1) [OF cb, of start now] pre called by simp
  have a2: "filter (written started_metric)
      (call_events self svc m beh False ps req st start now n) = [?started]"
    using call_events_writes [of started_metric, OF _ _ _ cb, of start now n] pre
    by (auto simp: finally_clause_def except_RpcError_def after_behavior_def Let_def
        split: sum.splits)
  obtain called' st'' returned' where cb':
    "call_behavior beh
       (snd (before_behavior self svc m True (get_method_type True ps) (handed_over req))) st
     = (called', st'', returned')"
    by (cases "call_behavior beh
       (snd (before_behavior self svc m True (get_method_type True ps) (handed_over req))) st")
  have b1: "filter (written started_metric)
      (call_events self svc m beh True ps req st start now n) = []"
    using call_events_writes [of started_metric, OF _ _ _ cb', of start now n]
    by (auto simp: before_behavior_def finally_clause_def except_RpcError_def after_behavior_def
        Let_def split: sum.splits)
  have b2: "count_list (call_events self svc m beh True ps req st start now n)
       (Inc GRPC_SERVER_STREAM_MSG_RECEIVED
          [(''grpc_type'', get_method_type True ps), (''grpc_service'', svc),
           (''grpc_method'', m)]) =
     count_list (call_events self svc m beh True ps req st start now n) Request_delivered
     + (if ps \<and> \<not> legacy self
        then length (call_responses self svc m beh True ps req st start now n) else 0)"
    using call_events_count [of GRPC_SERVER_STREAM_MSG_RECEIVED self svc m beh True ps req st
        start now n]
    by simp
  from a1 a2 b1 b2 before_behavior_counted_after [of self svc m "get_method_type True ps" xs ending]
  show ?thesis by blast
qed

theorem started_once_or_received_per_request_witness:
  "take 2 (call_events (init False False) ''Greeter'' ''SayHello''
        (Some (Behavior [Next_request, Next_request] (Return (1::nat)))) False False
        (Request_iterator [4::nat, 5] None) \<lparr>client = ''open'', code = None\<rparr> 1 3 0) =
     [Inc GRPC_SERVER_STARTED_COUNTER
        [(''grpc_type'', ''UNARY''), (''grpc_service'', ''Greeter''),
         (''grpc_method'', ''SayHello'')],
      Behavior_called]
   \<and> filter (written started_metric)
       (call_events (init False False) ''Greeter'' ''SayHello''
          (Some (Behavior [Next_request, Next_request] (Return (1::nat)))) True False
          (Request_iterator [4::nat, 5] None) \<lparr>client = ''open'', code = None\<rparr> 1 3 0) = []
   \<and> count_list
       (call_events (init False False) ''Greeter'' ''SayHello''
          (Some (Behavior [Next_request, Next_request] (Return (1::nat)))) True False
          (Request_iterator [4::nat, 5] None) \<lparr>client = ''open'', code = None\<rparr> 1 3 0)
       (Inc GRPC_SERVER_STREAM_MSG_RECEIVED
          [(''grpc_type'', ''CLIENT_STREAM''), (''grpc_service'', ''Greeter''),
           (''grpc_method'', ''SayHello'')]) =
     count_list
       (call_events (init False False) ''Greeter'' ''SayHello''
          (Some (Behavior [Next_request, Next_request] (Return (1::nat)))) True False
          (Request_iterator [4::nat, 5] None) \<lparr>client = ''open'', code = None\<rparr> 1 3 0)
       Request_delivered
   \<and> count_list
       (call_events (init False False) ''Greeter'' ''SayHello''
          (Some (Behavior [Next_request, Next_request] (Return (1::nat)))) True False
          (Request_iterator [4::nat, 5] None) \<lparr>client = ''open'', code = None\<rparr> 1 3 0)
       Request_delivered = 2"
  using started_once_or_received_per_request [of "init False False" "''Greeter''" "''SayHello''"
      "Some (Behavior [Next_request, Next_request] (Return (1::nat)))" False
      "Request_iterator [4::nat, 5] None" "\<lparr>client = ''open'', code = None\<rparr>" 1 3 0
      "[4::nat, 5]" None]
  by (simp add: interceptor_defs)




text \<open>
  Claim C9. For a handler that is not \<open>None\<close>, each of the four combinations of the two
  streaming flags selects the entry point and the factory of its own shape, the last
  branch being the one of the unary-unary shape; the wrapped handler has the original's
  flags, \<open>request_deserializer\<close> and \<open>response_serializer\<close>, and the wrapper of the
  selected entry point at that entry point only.
\<close>

theorem wrap_rpc_behavior_shape:
  "wrap_rpc_behavior (Some handler) fn =
     Some \<lparr>request_streaming = request_streaming handler,
           response_streaming = response_streaming handler,
           request_deserializer = request_deserializer handler,
           response_serializer = response_serializer handler,
           unary_unary =
             (if \<not> request_streaming handler \<and> \<not> response_streaming handler
              then Some (fn (unary_unary handler) False False) else None),
           unary_stream =
             (if \<not> request_streaming handler \<and> response_streaming handler
              then Some (fn (unary_stream handler) False True) else None),
           stream_unary =
             (if request_streaming handler \<and> \<not> response_streaming handler
              then Some (fn (stream_unary handler) True False) else None),
           stream_stream =
             (if request_streaming handler \<and> response_streaming handler
              then Some (fn (stream_stream handler) True True) else None)\<rparr>"
  by (simp add: wrap_rpc_behavior_def unary_unary_rpc_method_handler_def
      unary_stream_rpc_method_handler_def stream_unary_rpc_method_handler_def
      stream_stream_rpc_method_handler_def)

theorem wrap_rpc_behavior_shape_witness:
  "wrap_rpc_behavior
     (Some (stream_unary_rpc_method_handler (3::nat) ''deserialize'' ''serialize''))
     (\<lambda>behavior_fn request_streaming response_streaming.
        (behavior_fn, request_streaming, response_streaming)) =
   Some (stream_unary_rpc_method_handler (Some (3::nat), True, False) ''deserialize''
           ''serialize'')"
  using wrap_rpc_behavior_shape [of
      "stream_unary_rpc_method_handler (3::nat) ''deserialize'' ''serialize''"
      "\<lambda>behavior_fn request_streaming response_streaming.
        (behavior_fn, request_streaming, response_streaming)"]
  by (simp add: stream_unary_rpc_method_handler_def)

text \<open>
  Claim C10. When the method name has been split and the continuation yields \<open>None\<close>,
  \<open>intercept_service\<close> returns \<open>None\<close>: it raises nothing and writes nothing.
\<close>

theorem no_handler_no_metrics:
  assumes "split_method_call details = Inr (svc, m, ok)" and "continuation details = None"
  shows "intercept_service self split_method_call continuation details = ([], Inr None)"
  using assms by (simp add: intercept_service_def wrap_rpc_behavior_def)

theorem no_handler_no_metrics_witness:
  "(\<lambda>d. Inr (''Greeter'', ''SayHello'', True) :: py_exception + string \<times> string \<times> bool)
      ''/Greeter/SayHello'' = Inr (''Greeter'', ''SayHello'', True)
   \<and> (\<lambda>d. None :: (nat behavior, unit, unit) RpcMethodHandler option) ''/Greeter/SayHello'' = None
   \<and> (intercept_service (init False False)
        (\<lambda>d. Inr (''Greeter'', ''SayHello'', True)) (\<lambda>d. None) ''/Greeter/SayHello''
       :: event list \<times>
          (py_exception +
           (nat value_or_iterator \<Rightarrow> servicer_state \<Rightarrow> real \<Rightarrow> real \<Rightarrow> nat invocation, unit, unit)
             RpcMethodHandler option))
     = ([], Inr None)"
  using no_handler_no_metrics [of "\<lambda>d. Inr (''Greeter'', ''SayHello'', True)"
      "''/Greeter/SayHello''" "''Greeter''" "''SayHello''" True "\<lambda>d. None" "init False False"]
  by simp

end
